theory Spec2Isabelle
  imports Main
begin

section \<open>The note-authoring card with dictation (new-note-card.tsx)\<close>

text \<open>
  The component \<open>NewNoteCard\<close> keeps four pieces of React state
  (\<open>shouldShowOnboarding\<close>, \<open>isRecording\<close>, \<open>content\<close>, \<open>selectedFolderId\<close>) and two
  mutable refs (\<open>speechRecognitionRef\<close>, \<open>isRecordingRef\<close>). Its handlers run to completion
  on one event loop, so every handler is a function from state to state. What the handlers
  do to the outside world (the parent's callbacks, toasts, the console, the browser's
  recognizer objects, timers) is kept in the state as well: the recognizer objects and the
  pending timers because later events depend on them, and a trace of the calls in the
  order the handler makes them.
\<close>

subsection \<open>Data\<close>

type_synonym handle = nat

text \<open>
  A recognizer object of the browser. \<open>Created\<close>: constructed, \<open>start()\<close> not yet called;
  \<open>Active\<close>: started; \<open>Stopping\<close>: \<open>stop()\<close> was called and the end event is still to come;
  \<open>Ended\<close>: the end event was delivered.
\<close>

datatype stream_status = Created | Active | Stopping | Ended

record recognizer =
  status :: stream_status
  lang :: string
  continuous :: bool
  maxAlternatives :: nat
  interimResults :: bool

text \<open>
  One entry of \<open>event.results\<close>. The handler reads \<open>result[0].transcript\<close> only; a
  \<open>SpeechRecognitionResult\<close> always holds at least one alternative, which is \<open>item0\<close>.
\<close>

record speech_alternative =
  transcript :: string

record speech_result =
  item0 :: speech_alternative
  isFinal :: bool

datatype toast_kind = ToastSuccess | ToastError | ToastWarning

datatype effect =
    NoteCreated string "string option"
  | Toast toast_kind string
  | ConsoleError
  | HandleOpen bool
  | FlagWrite bool
  | StreamNew handle
  | StreamStart handle
  | StreamStop handle
  | TimerSet nat

text \<open>
  What the environment offers: whether \<open>window\<close> has \<open>SpeechRecognition\<close> or
  \<open>webkitSpeechRecognition\<close>, and what \<open>navigator.brave?.isBrave?.()\<close> gives
  (\<open>BraveAbsent\<close>: the optional chain is undefined and nothing is scheduled).
\<close>

datatype brave_probe = BraveAbsent | BraveResolves bool | BraveRejects

record env =
  hasSpeechRecognition :: bool
  hasWebkitSpeechRecognition :: bool
  braveProbe :: brave_probe

record state =
  shouldShowOnboarding :: bool
  isRecording :: bool
  content :: string
  selectedFolderId :: "string option"
  speechRecognitionRef :: "handle option"
  isRecordingRef :: bool
  streams :: "recognizer list"
  timers :: "nat list"
  pendingBrave :: "bool option list"
  trace :: "effect list"

definition init_state :: state where
  "init_state =
     \<lparr>shouldShowOnboarding = True, isRecording = False, content = '''',
      selectedFolderId = None, speechRecognitionRef = None, isRecordingRef = False,
      streams = [], timers = [], pendingBrave = [], trace = []\<rparr>"

subsection \<open>The browser's side\<close>

definition emit :: "effect \<Rightarrow> state \<Rightarrow> state" where
  "emit e s = s\<lparr>trace := trace s @ [e]\<rparr>"

definition set_status :: "handle \<Rightarrow> stream_status \<Rightarrow> recognizer list \<Rightarrow> recognizer list" where
  "set_status h st rs = (if h < length rs then rs[h := (rs ! h)\<lparr>status := st\<rparr>] else rs)"

definition status_at :: "recognizer list \<Rightarrow> handle \<Rightarrow> stream_status option" where
  "status_at rs h = (if h < length rs then Some (status (rs ! h)) else None)"

text \<open>\<open>new SpeechRecognitionAPI()\<close>: a fresh object with the interface's default attributes.\<close>

definition platform_new :: "state \<Rightarrow> state" where
  "platform_new s =
     emit (StreamNew (length (streams s)))
       (s\<lparr>streams := streams s @
            [\<lparr>status = Created, lang = '''', continuous = False,
              maxAlternatives = 1, interimResults = False\<rparr>]\<rparr>)"

text \<open>\<open>recognition.start()\<close> on a fresh object.\<close>

definition platform_start :: "handle \<Rightarrow> state \<Rightarrow> state" where
  "platform_start h s =
     emit (StreamStart h)
       (if status_at (streams s) h = Some Created
        then s\<lparr>streams := set_status h Active (streams s)\<rparr> else s)"

text \<open>
  \<open>recognition.stop()\<close>: asks a started recognizer to end; the end event comes later, as
  an event of its own. On a recognizer that is not running the call does nothing.
\<close>

definition platform_stop :: "handle \<Rightarrow> state \<Rightarrow> state" where
  "platform_stop h s =
     emit (StreamStop h)
       (if status_at (streams s) h = Some Active
        then s\<lparr>streams := set_status h Stopping (streams s)\<rparr> else s)"

text \<open>\<open>setTimeout(callback, d)\<close>: every callback the component schedules is the same closure.\<close>

definition set_timeout :: "nat \<Rightarrow> state \<Rightarrow> state" where
  "set_timeout d s = emit (TimerSet d) (s\<lparr>timers := timers s @ [d]\<rparr>)"

subsection \<open>The component's handlers\<close>

text \<open>\<open>isRecordingRef.current = b\<close>\<close>

definition write_flag :: "bool \<Rightarrow> state \<Rightarrow> state" where
  "write_flag b s = emit (FlagWrite b) (s\<lparr>isRecordingRef := b\<rparr>)"

text \<open>
  The block \<open>if (speechRecognitionRef.current) { speechRecognitionRef.current.stop();
  speechRecognitionRef.current = null; }\<close>, which the source writes out three times
  (effect cleanup, \<open>startRecognition\<close>, \<open>handleStopRecording\<close>).
\<close>

definition stop_and_clear :: "state \<Rightarrow> state" where
  "stop_and_clear s =
     (case speechRecognitionRef s of
        None \<Rightarrow> s
      | Some h \<Rightarrow> (platform_stop h s)\<lparr>speechRecognitionRef := None\<rparr>)"

text \<open>The cleanup function returned by the \<open>useEffect\<close> with no dependencies (unmount).\<close>

definition cleanup :: "state \<Rightarrow> state" where
  "cleanup s = stop_and_clear s"

definition handleStartEditor :: "state \<Rightarrow> state" where
  "handleStartEditor s = s\<lparr>shouldShowOnboarding := False\<rparr>"

definition handleContentChanged :: "string \<Rightarrow> state \<Rightarrow> state" where
  "handleContentChanged v s =
     (let s1 = s\<lparr>content := v\<rparr>
      in if v = '''' then s1\<lparr>shouldShowOnboarding := True\<rparr> else s1)"

text \<open>
  \<open>event.preventDefault()\<close> acts on the event object only and is not part of the state.
\<close>

definition handleSaveNote :: "state \<Rightarrow> state" where
  "handleSaveNote s =
     (if content s = '''' then s
      else
        let s1 = emit (NoteCreated (content s) (selectedFolderId s)) s;
            s2 = s1\<lparr>content := ''''\<rparr>;
            s3 = s2\<lparr>selectedFolderId := None\<rparr>;
            s4 = s3\<lparr>shouldShowOnboarding := True\<rparr>
        in emit (Toast ToastSuccess ''Nota criada com sucesso!'') s4)"

text \<open>The \<open>reduce\<close> of \<open>onresult\<close>: text.concat(result[0].transcript), from the empty string.\<close>

definition transcription :: "speech_result list \<Rightarrow> string" where
  "transcription rs = foldl (\<lambda>text r. text @ transcript (item0 r)) '''' rs"

definition configure :: "handle \<Rightarrow> state \<Rightarrow> state" where
  "configure h s =
     (if h < length (streams s)
      then s\<lparr>streams := (streams s)[h := (streams s ! h)
             \<lparr>lang := ''pt-BR'', continuous := True, maxAlternatives := 1,
              interimResults := True\<rparr>]\<rparr>
      else s)"

definition startRecognition :: "state \<Rightarrow> state" where
  "startRecognition s =
     (let s1 = stop_and_clear s;
          h = length (streams s1);
          s2 = (platform_new s1)\<lparr>speechRecognitionRef := Some h\<rparr>;
          s3 = configure h s2
      in platform_start h s3)"

definition onresult :: "speech_result list \<Rightarrow> state \<Rightarrow> state" where
  "onresult rs s = s\<lparr>content := transcription rs\<rparr>"

definition onerror :: "state \<Rightarrow> state" where
  "onerror s =
     (let s1 = emit ConsoleError s
      in if \<not> isRecordingRef s1 then s1\<lparr>isRecording := False\<rparr> else s1)"

definition onend :: "state \<Rightarrow> state" where
  "onend s =
     (if \<not> isRecordingRef s
      then s\<lparr>isRecording := False, speechRecognitionRef := None\<rparr>
      else set_timeout 200 s)"

text \<open>The callback handed to \<open>setTimeout\<close> in \<open>onend\<close>.\<close>

definition restart_callback :: "state \<Rightarrow> state" where
  "restart_callback s = (if isRecordingRef s then startRecognition s else s)"

definition speech_available :: "env \<Rightarrow> bool" where
  "speech_available e = (hasSpeechRecognition e \<or> hasWebkitSpeechRecognition e)"

text \<open>
  The Brave probe of \<open>handleStartRecording\<close>: a promise whose outcome is handled later,
  when it settles.
\<close>

definition probe_brave :: "env \<Rightarrow> state \<Rightarrow> state" where
  "probe_brave e s =
     (case braveProbe e of
        BraveAbsent \<Rightarrow> s
      | BraveResolves b \<Rightarrow> s\<lparr>pendingBrave := pendingBrave s @ [Some b]\<rparr>
      | BraveRejects \<Rightarrow> s\<lparr>pendingBrave := pendingBrave s @ [None]\<rparr>)"

definition handleStartRecording :: "env \<Rightarrow> state \<Rightarrow> state" where
  "handleStartRecording e s =
     (if \<not> speech_available e
      then emit (Toast ToastError
             ''Seu navegador nao suporta a API de gravacao. Use Chrome ou Edge.'') s
      else
        let s1 = probe_brave e s;
            s2 = s1\<lparr>isRecording := True\<rparr>;
            s3 = write_flag True s2;
            s4 = s3\<lparr>shouldShowOnboarding := False\<rparr>
        in startRecognition s4)"

definition handleStopRecording :: "state \<Rightarrow> state" where
  "handleStopRecording s =
     (let s1 = s\<lparr>isRecording := False\<rparr>;
          s2 = write_flag False s1
      in stop_and_clear s2)"

definition handleDialogOpenChange :: "bool \<Rightarrow> state \<Rightarrow> state" where
  "handleDialogOpenChange nextOpen s =
     (let s1 = (if \<not> nextOpen
                then (handleStopRecording s)
                       \<lparr>content := '''', selectedFolderId := None,
                        shouldShowOnboarding := True\<rparr>
                else s)
      in emit (HandleOpen nextOpen) s1)"

text \<open>The folder selector's \<open>onChange\<close>: setSelectedFolderId(e.target.value || null).\<close>

definition selectFolder :: "string \<Rightarrow> state \<Rightarrow> state" where
  "selectFolder v s = s\<lparr>selectedFolderId := (if v = '''' then None else Some v)\<rparr>"

subsection \<open>Events\<close>

text \<open>
  The user's actions, the unmount, the three events of a recognizer, a timer coming due
  and the Brave promise settling. The browser delivers a recognizer's events only while
  it is running or ending; pending timers have the same delay and come due oldest first.
\<close>

datatype event =
    StartEditor
  | ContentChanged string
  | SaveNote
  | StartRecording
  | StopRecording
  | DialogOpenChange bool
  | SelectFolder string
  | Unmount
  | ResultEvent handle "speech_result list"
  | ErrorEvent handle
  | EndEvent handle
  | TimerFire
  | BraveSettled

definition delivering :: "handle \<Rightarrow> state \<Rightarrow> bool" where
  "delivering h s =
     (status_at (streams s) h = Some Active \<or> status_at (streams s) h = Some Stopping)"

definition fire_timer :: "state \<Rightarrow> state" where
  "fire_timer s =
     (case timers s of
        [] \<Rightarrow> s
      | d # ds \<Rightarrow> restart_callback (s\<lparr>timers := ds\<rparr>))"

definition settle_brave :: "state \<Rightarrow> state" where
  "settle_brave s =
     (case pendingBrave s of
        [] \<Rightarrow> s
      | p # ps \<Rightarrow>
          (let s1 = s\<lparr>pendingBrave := ps\<rparr>
           in if p = Some True
              then emit (Toast ToastWarning
                     ''O Brave pode bloquear a gravacao por voz. Se falhar, teste no Chrome.'') s1
              else s1))"

fun step :: "env \<Rightarrow> event \<Rightarrow> state \<Rightarrow> state" where
  "step e StartEditor s = handleStartEditor s"
| "step e (ContentChanged v) s = handleContentChanged v s"
| "step e SaveNote s = handleSaveNote s"
| "step e StartRecording s = handleStartRecording e s"
| "step e StopRecording s = handleStopRecording s"
| "step e (DialogOpenChange b) s = handleDialogOpenChange b s"
| "step e (SelectFolder v) s = selectFolder v s"
| "step e Unmount s = cleanup s"
| "step e (ResultEvent h rs) s = (if delivering h s then onresult rs s else s)"
| "step e (ErrorEvent h) s = (if delivering h s then onerror s else s)"
| "step e (EndEvent h) s =
     (if delivering h s then onend (s\<lparr>streams := set_status h Ended (streams s)\<rparr>) else s)"
| "step e TimerFire s = fire_timer s"
| "step e BraveSettled s = settle_brave s"

definition run :: "env \<Rightarrow> event list \<Rightarrow> state \<Rightarrow> state" where
  "run e es s = foldl (\<lambda>t ev. step e ev t) s es"

text \<open>The handles of the recognizers that are running.\<close>

definition live_handles :: "state \<Rightarrow> handle list" where
  "live_handles s = filter (\<lambda>h. status (streams s ! h) = Active) [0..<length (streams s)]"

subsection \<open>Environments and derived notions used in the statements\<close>

text \<open>A browser without any recognition interface, and one with the prefixed interface.\<close>

definition no_speech_env :: env where
  "no_speech_env =
     \<lparr>hasSpeechRecognition = False, hasWebkitSpeechRecognition = False,
      braveProbe = BraveAbsent\<rparr>"

definition chrome_env :: env where
  "chrome_env =
     \<lparr>hasSpeechRecognition = False, hasWebkitSpeechRecognition = True,
      braveProbe = BraveAbsent\<rparr>"


text \<open>
  The invariant of the session: a running recognizer is the one the ref holds, the ref
  is empty whenever \<open>isRecordingRef\<close> is false, and the React state \<open>isRecording\<close>
  agrees with the ref.
\<close>

definition session_inv :: "state \<Rightarrow> bool" where
  "session_inv s \<longleftrightarrow>
     (\<forall>k. status_at (streams s) k = Some Active \<longrightarrow> speechRecognitionRef s = Some k)
   \<and> (speechRecognitionRef s \<noteq> None \<longrightarrow> isRecordingRef s)
   \<and> isRecording s = isRecordingRef s"


text \<open>
  The session after a stop: both recording flags false and no recognizer in the ref.
\<close>

definition stopped :: "state \<Rightarrow> bool" where
  "stopped s \<longleftrightarrow> \<not> isRecordingRef s \<and> \<not> isRecording s \<and> speechRecognitionRef s = None"

text \<open>
  Two reachable states used as concrete inputs: dictating with the text "abc"
  received; dictating on a second recognizer while the restart timer set by the first
  one's end is still pending.
\<close>

definition dictating_abc :: state where
  "dictating_abc =
     run chrome_env
       [StartRecording,
        ResultEvent 0 [\<lparr>item0 = \<lparr>transcript = ''abc''\<rparr>, isFinal = False\<rparr>]]
       init_state"

definition dictating_with_timer :: state where
  "dictating_with_timer =
     run chrome_env [StartRecording, ContentChanged '''', StartRecording, EndEvent 0]
       init_state"

section \<open>Basic facts about the handlers\<close>

lemma status_at_set_status:
  "status_at (set_status h st rs) k =
     (if k = h \<and> h < length rs then Some st else status_at rs k)"
  by (simp add: status_at_def set_status_def)

lemma length_set_status: "length (set_status h st rs) = length rs"
  by (simp add: set_status_def)

lemma status_at_snoc:
  "status_at (rs @ [r]) k =
     (if k = length rs then Some (status r) else status_at rs k)"
  by (simp add: status_at_def nth_append)

lemma status_at_range: "status_at rs k = Some st \<Longrightarrow> k < length rs"
  by (simp add: status_at_def split: if_splits)

lemma status_at_length: "status_at rs (length rs) = None"
  by (simp add: status_at_def)

lemma stop_and_clear_fields:
  "speechRecognitionRef (stop_and_clear s) = None"
  "isRecordingRef (stop_and_clear s) = isRecordingRef s"
  "isRecording (stop_and_clear s) = isRecording s"
  "content (stop_and_clear s) = content s"
  "selectedFolderId (stop_and_clear s) = selectedFolderId s"
  "shouldShowOnboarding (stop_and_clear s) = shouldShowOnboarding s"
  "timers (stop_and_clear s) = timers s"
  "pendingBrave (stop_and_clear s) = pendingBrave s"
  "length (streams (stop_and_clear s)) = length (streams s)"
  by (simp_all add: stop_and_clear_def platform_stop_def emit_def length_set_status
        split: option.split)

lemma stop_and_clear_status:
  "status_at (streams (stop_and_clear s)) k =
     (if speechRecognitionRef s = Some k \<and> status_at (streams s) k = Some Active
      then Some Stopping else status_at (streams s) k)"
  by (auto simp: stop_and_clear_def platform_stop_def emit_def status_at_set_status
        split: option.split dest: status_at_range)

lemma stop_and_clear_trace:
  "trace (stop_and_clear s) =
     trace s @ (case speechRecognitionRef s of None \<Rightarrow> [] | Some h \<Rightarrow> [StreamStop h])"
  by (simp add: stop_and_clear_def platform_stop_def emit_def split: option.split)

lemma startRecognition_fields:
  "speechRecognitionRef (startRecognition s) = Some (length (streams s))"
  "isRecordingRef (startRecognition s) = isRecordingRef s"
  "isRecording (startRecognition s) = isRecording s"
  "content (startRecognition s) = content s"
  "selectedFolderId (startRecognition s) = selectedFolderId s"
  "shouldShowOnboarding (startRecognition s) = shouldShowOnboarding s"
  "timers (startRecognition s) = timers s"
  "pendingBrave (startRecognition s) = pendingBrave s"
  "length (streams (startRecognition s)) = Suc (length (streams s))"
  by (simp_all add: startRecognition_def Let_def platform_start_def platform_new_def
        configure_def emit_def stop_and_clear_fields length_set_status)

lemma status_at_configure: "status_at (streams (configure h s)) k = status_at (streams s) k"
  by (simp add: configure_def status_at_def nth_list_update)

lemma startRecognition_status:
  "status_at (streams (startRecognition s)) k =
     (if k = length (streams s) then Some Active
      else if speechRecognitionRef s = Some k \<and> status_at (streams s) k = Some Active
      then Some Stopping else status_at (streams s) k)"
proof -
  let ?s1 = "stop_and_clear s"
  let ?h = "length (streams ?s1)"
  let ?s2 = "(platform_new ?s1)\<lparr>speechRecognitionRef := Some ?h\<rparr>"
  let ?s3 = "configure ?h ?s2"
  have len: "?h = length (streams s)" by (simp add: stop_and_clear_fields)
  have s2: "status_at (streams ?s2) k =
              (if k = ?h then Some Created else status_at (streams ?s1) k)" for k
    by (simp add: platform_new_def emit_def status_at_snoc)
  have s3: "status_at (streams ?s3) k = status_at (streams ?s2) k" for k
    by (rule status_at_configure)
  have len3: "length (streams ?s3) = Suc ?h"
    by (simp add: configure_def platform_new_def emit_def)
  have "status_at (streams (platform_start ?h ?s3)) k =
          (if k = ?h then Some Active else status_at (streams ?s1) k)"
    using s2 s3 len3 by (simp add: platform_start_def emit_def status_at_set_status)
  then show ?thesis
    by (simp add: startRecognition_def Let_def len stop_and_clear_status)
qed

lemma startRecognition_trace:
  "trace (startRecognition s) =
     trace s @ (case speechRecognitionRef s of None \<Rightarrow> [] | Some h \<Rightarrow> [StreamStop h])
       @ [StreamNew (length (streams s)), StreamStart (length (streams s))]"
  by (simp add: startRecognition_def Let_def platform_start_def platform_new_def
        configure_def emit_def stop_and_clear_fields stop_and_clear_trace)

subsection \<open>The invariant holds in every reachable state\<close>

lemma inv_init: "session_inv init_state"
  by (simp add: session_inv_def init_state_def status_at_def)

lemma inv_stop_and_clear:
  "session_inv s \<Longrightarrow> session_inv (stop_and_clear s)"
  by (auto simp: session_inv_def stop_and_clear_fields stop_and_clear_status)

lemma inv_startRecognition:
  "session_inv s \<Longrightarrow> isRecordingRef s \<Longrightarrow> session_inv (startRecognition s)"
  by (auto simp: session_inv_def startRecognition_fields startRecognition_status
        dest: status_at_range)

lemma inv_handleStopRecording:
  "session_inv s \<Longrightarrow> session_inv (handleStopRecording s)"
  by (auto simp: session_inv_def handleStopRecording_def Let_def write_flag_def emit_def
        stop_and_clear_fields stop_and_clear_status)

lemma inv_handleStartRecording:
  "session_inv s \<Longrightarrow> session_inv (handleStartRecording e s)"
proof -
  assume a: "session_inv s"
  show ?thesis
  proof (cases "speech_available e")
    case False
    with a show ?thesis by (simp add: handleStartRecording_def session_inv_def emit_def)
  next
    case True
    let ?s4 = "(write_flag True ((probe_brave e s)\<lparr>isRecording := True\<rparr>))
                 \<lparr>shouldShowOnboarding := False\<rparr>"
    have "session_inv ?s4"
      using a by (auto simp: session_inv_def write_flag_def emit_def probe_brave_def
                    split: brave_probe.splits)
    moreover have "isRecordingRef ?s4" by (simp add: write_flag_def emit_def)
    ultimately have "session_inv (startRecognition ?s4)" by (rule inv_startRecognition)
    with True show ?thesis by (simp add: handleStartRecording_def Let_def)
  qed
qed

lemma inv_onend:
  "session_inv s \<Longrightarrow> session_inv (onend (s\<lparr>streams := set_status h Ended (streams s)\<rparr>))"
  by (auto simp: session_inv_def onend_def set_timeout_def emit_def status_at_set_status
        split: if_splits)

lemma inv_fire_timer: "session_inv s \<Longrightarrow> session_inv (fire_timer s)"
proof (cases "timers s")
  case Nil
  assume "session_inv s"
  with Nil show ?thesis by (simp add: fire_timer_def)
next
  case (Cons d ds)
  assume a: "session_inv s"
  then have i: "session_inv (s\<lparr>timers := ds\<rparr>)" by (simp add: session_inv_def)
  show ?thesis
  proof (cases "isRecordingRef s")
    case True
    with i have "session_inv (startRecognition (s\<lparr>timers := ds\<rparr>))"
      by (intro inv_startRecognition) simp_all
    with True Cons show ?thesis by (simp add: fire_timer_def restart_callback_def)
  next
    case False
    with i Cons show ?thesis by (simp add: fire_timer_def restart_callback_def)
  qed
qed

lemma inv_step: "session_inv s \<Longrightarrow> session_inv (step e ev s)"
proof (cases ev)
  case StartRecording
  assume "session_inv s"
  with StartRecording show ?thesis by (simp add: inv_handleStartRecording)
next
  case StopRecording
  assume "session_inv s"
  with StopRecording show ?thesis by (simp add: inv_handleStopRecording)
next
  case (DialogOpenChange b)
  assume a: "session_inv s"
  from inv_handleStopRecording [OF a]
  have "session_inv ((handleStopRecording s)\<lparr>content := '''', selectedFolderId := None,
                        shouldShowOnboarding := True\<rparr>)"
    by (simp add: session_inv_def)
  with a DialogOpenChange show ?thesis
    by (simp add: handleDialogOpenChange_def Let_def emit_def session_inv_def)
next
  case Unmount
  assume "session_inv s"
  with Unmount show ?thesis by (simp add: cleanup_def inv_stop_and_clear)
next
  case (EndEvent h)
  assume "session_inv s"
  with EndEvent show ?thesis by (simp add: inv_onend)
next
  case TimerFire
  assume "session_inv s"
  with TimerFire show ?thesis by (simp add: inv_fire_timer)
next
  case (ErrorEvent h)
  assume "session_inv s"
  with ErrorEvent show ?thesis by (auto simp: onerror_def Let_def emit_def session_inv_def)
next
  case (ResultEvent h rs)
  assume "session_inv s"
  with ResultEvent show ?thesis by (simp add: onresult_def session_inv_def)
next
  case BraveSettled
  assume "session_inv s"
  with BraveSettled show ?thesis
    by (simp add: settle_brave_def Let_def emit_def session_inv_def split: list.split)
next
  case SaveNote
  assume "session_inv s"
  with SaveNote show ?thesis by (simp add: handleSaveNote_def Let_def emit_def session_inv_def)
next
  case (SelectFolder v)
  assume "session_inv s"
  with SelectFolder show ?thesis by (simp add: selectFolder_def session_inv_def)
next
  case (ContentChanged v)
  assume "session_inv s"
  with ContentChanged show ?thesis
    by (simp add: handleContentChanged_def Let_def session_inv_def)
next
  case StartEditor
  assume "session_inv s"
  with StartEditor show ?thesis by (simp add: handleStartEditor_def session_inv_def)
qed

lemma run_snoc: "run e (es @ [ev]) s = step e ev (run e es s)"
  by (simp add: run_def)

lemma inv_run: "session_inv s \<Longrightarrow> session_inv (run e es s)"
proof (induction es rule: rev_induct)
  case Nil
  then show ?case by (simp add: run_def)
next
  case (snoc ev es)
  then show ?case by (simp add: run_snoc inv_step)
qed

lemma live_handles_set:
  "set (live_handles s) = {k. status_at (streams s) k = Some Active}"
  by (auto simp: live_handles_def status_at_def)

lemma live_handles_distinct: "distinct (live_handles s)"
  by (simp add: live_handles_def)

lemma distinct_all_same: "distinct xs \<Longrightarrow> \<forall>x\<in>set xs. x = a \<Longrightarrow> length xs \<le> 1"
  by (cases xs; cases "tl xs") auto

lemma distinct_set_single: "distinct xs \<Longrightarrow> set xs = {a} \<Longrightarrow> xs = [a]"
  by (cases xs; cases "tl xs") auto

lemma live_handles_after_start:
  assumes "session_inv s"
  shows "live_handles (startRecognition s) = [length (streams s)]"
proof -
  have "set (live_handles (startRecognition s)) = {length (streams s)}"
    using assms
    by (auto simp: live_handles_set startRecognition_status session_inv_def
          dest: status_at_range)
  then show ?thesis by (rule distinct_set_single [OF live_handles_distinct])
qed

lemma update_isRecording_same: "\<not> isRecording s \<Longrightarrow> s\<lparr>isRecording := False\<rparr> = s"
  by (cases s) simp

lemma foldl_transcript:
  "foldl (\<lambda>text r. text @ transcript (item0 r)) acc rs
     = acc @ concat (map (\<lambda>r. transcript (item0 r)) rs)"
  by (induction rs arbitrary: acc) simp_all

lemma transcription_concat:
  "transcription rs = concat (map (\<lambda>r. transcript (item0 r)) rs)"
  by (simp add: transcription_def foldl_transcript)

subsection \<open>The folder id\<close>









subsection \<open>After a stop\<close>

lemma stopped_handleStopRecording:
  "stopped (handleStopRecording s)"
  "length (streams (handleStopRecording s)) = length (streams s)"
  "trace (handleStopRecording s) =
     trace s @ FlagWrite False #
       (case speechRecognitionRef s of None \<Rightarrow> [] | Some h \<Rightarrow> [StreamStop h])"
  by (simp_all add: stopped_def handleStopRecording_def Let_def write_flag_def emit_def
        stop_and_clear_fields stop_and_clear_trace)

lemma stopped_step:
  assumes "stopped s" and "ev \<noteq> StartRecording"
  shows "stopped (step e ev s) \<and> length (streams (step e ev s)) = length (streams s)"
proof (cases ev)
  case StartRecording
  with assms show ?thesis by simp
next
  case StopRecording
  then show ?thesis by (simp add: stopped_handleStopRecording)
next
  case (DialogOpenChange b)
  with assms stopped_handleStopRecording(1,2) [of s] show ?thesis
    by (simp add: handleDialogOpenChange_def Let_def emit_def stopped_def)
next
  case Unmount
  with assms show ?thesis by (simp add: cleanup_def stopped_def stop_and_clear_fields)
next
  case (EndEvent h)
  with assms show ?thesis by (simp add: onend_def stopped_def length_set_status)
next
  case TimerFire
  with assms show ?thesis
    by (simp add: fire_timer_def restart_callback_def stopped_def split: list.split)
next
  case (ErrorEvent h)
  with assms show ?thesis by (simp add: onerror_def Let_def emit_def stopped_def)
next
  case (ResultEvent h rs)
  with assms show ?thesis by (simp add: onresult_def stopped_def)
next
  case BraveSettled
  with assms show ?thesis
    by (simp add: settle_brave_def Let_def emit_def stopped_def split: list.split)
next
  case SaveNote
  with assms show ?thesis by (simp add: handleSaveNote_def Let_def emit_def stopped_def)
next
  case (SelectFolder v)
  with assms show ?thesis by (simp add: selectFolder_def stopped_def)
next
  case (ContentChanged v)
  with assms show ?thesis by (simp add: handleContentChanged_def Let_def stopped_def)
next
  case StartEditor
  with assms show ?thesis by (simp add: handleStartEditor_def stopped_def)
qed

lemma stopped_run:
  "stopped s \<Longrightarrow> StartRecording \<notin> set es \<Longrightarrow>
     stopped (run e es s) \<and> length (streams (run e es s)) = length (streams s)"
proof (induction es rule: rev_induct)
  case Nil
  then show ?case by (simp add: run_def)
next
  case (snoc ev es)
  then have ih: "stopped (run e es s)" "length (streams (run e es s)) = length (streams s)"
    and ne: "ev \<noteq> StartRecording" by auto
  from stopped_step [OF ih(1) ne, of e] ih(2) show ?case by (simp add: run_snoc)
qed


subsection \<open>The concrete states, evaluated\<close>

lemmas model_defs =
  run_def chrome_env_def init_state_def handleStartRecording_def handleStopRecording_def
  handleStartEditor_def handleContentChanged_def handleSaveNote_def
  handleDialogOpenChange_def cleanup_def onresult_def onend_def onerror_def
  fire_timer_def restart_callback_def transcription_def delivering_def
  speech_available_def probe_brave_def write_flag_def emit_def set_timeout_def Let_def
  startRecognition_def stop_and_clear_def platform_new_def platform_start_def
  platform_stop_def configure_def status_at_def set_status_def live_handles_def

lemma dictating_abc_eval:
  "dictating_abc =
     \<lparr>shouldShowOnboarding = False, isRecording = True, content = ''abc'',
      selectedFolderId = None, speechRecognitionRef = Some 0, isRecordingRef = True,
      streams = [\<lparr>status = Active, lang = ''pt-BR'', continuous = True,
                  maxAlternatives = 1, interimResults = True\<rparr>],
      timers = [], pendingBrave = [],
      trace = [FlagWrite True, StreamNew 0, StreamStart 0]\<rparr>"
  by (simp add: dictating_abc_def model_defs)

lemma dictating_with_timer_eval:
  "dictating_with_timer =
     \<lparr>shouldShowOnboarding = False, isRecording = True, content = '''',
      selectedFolderId = None, speechRecognitionRef = Some 1, isRecordingRef = True,
      streams = [\<lparr>status = Ended, lang = ''pt-BR'', continuous = True,
                  maxAlternatives = 1, interimResults = True\<rparr>,
                 \<lparr>status = Active, lang = ''pt-BR'', continuous = True,
                  maxAlternatives = 1, interimResults = True\<rparr>],
      timers = [200], pendingBrave = [],
      trace = [FlagWrite True, StreamNew 0, StreamStart 0, FlagWrite True, StreamStop 0,
               StreamNew 1, StreamStart 1, TimerSet 200]\<rparr>"
  by (simp add: dictating_with_timer_def model_defs)

section \<open>The claims\<close>

text \<open>
  C1. From every state, \<open>handleStopRecording\<close> writes \<open>isRecordingRef.current = false\<close>
  before it asks the recognizer held by the ref to stop (the two calls appear in this
  order in the trace), and it empties the ref. Whatever events follow, as long as none of
  them is a new start of the recording, the flags stay false, the ref stays empty and no
  recognizer is constructed: an end event or a timer callback that comes after the stop
  finds the flag false and restarts nothing.
\<close>

theorem stop_suppresses_restart:
  assumes "StartRecording \<notin> set es"
  shows "trace (handleStopRecording s) =
           trace s @ FlagWrite False #
             (case speechRecognitionRef s of None \<Rightarrow> [] | Some h \<Rightarrow> [StreamStop h])
         \<and> speechRecognitionRef (handleStopRecording s) = None
         \<and> \<not> isRecordingRef (run e es (handleStopRecording s))
         \<and> \<not> isRecording (run e es (handleStopRecording s))
         \<and> speechRecognitionRef (run e es (handleStopRecording s)) = None
         \<and> length (streams (run e es (handleStopRecording s))) = length (streams s)"
  using stopped_run [OF stopped_handleStopRecording(1) assms, of e s]
        stopped_handleStopRecording [of s]
  by (simp add: stopped_def)

theorem stop_suppresses_restart_witness:
  "StartRecording \<notin> set [TimerFire, EndEvent 1]
   \<and> timers dictating_with_timer = [200]
   \<and> live_handles dictating_with_timer = [1]
   \<and> trace (handleStopRecording dictating_with_timer) =
       trace dictating_with_timer @ [FlagWrite False, StreamStop 1]
   \<and> \<not> isRecordingRef (run chrome_env [TimerFire, EndEvent 1]
         (handleStopRecording dictating_with_timer))
   \<and> speechRecognitionRef (run chrome_env [TimerFire, EndEvent 1]
         (handleStopRecording dictating_with_timer)) = None
   \<and> length (streams (run chrome_env [TimerFire, EndEvent 1]
         (handleStopRecording dictating_with_timer))) = 2"
  using stop_suppresses_restart [of "[TimerFire, EndEvent 1]" dictating_with_timer chrome_env]
  by (simp add: dictating_with_timer_eval live_handles_def)




text \<open>
  C3. Along every sequence of events from the initial state, at most one recognizer is
  running, and a running recognizer is the one \<open>speechRecognitionRef\<close> holds; a non-null
  ref implies that the session is listening (\<open>isRecordingRef\<close> and \<open>isRecording\<close> are
  true). Starting or restarting in such a state first asks the recognizer held by the ref
  to stop, then constructs and starts the new one, which afterwards is the only one
  running and the one the ref holds.
\<close>

theorem single_live_stream:
  "length (live_handles (run e es init_state)) \<le> 1
   \<and> (\<forall>h\<in>set (live_handles (run e es init_state)).
         speechRecognitionRef (run e es init_state) = Some h)
   \<and> (speechRecognitionRef (run e es init_state) \<noteq> None \<longrightarrow>
         isRecordingRef (run e es init_state) \<and> isRecording (run e es init_state))
   \<and> live_handles (startRecognition (run e es init_state))
         = [length (streams (run e es init_state))]
   \<and> speechRecognitionRef (startRecognition (run e es init_state))
         = Some (length (streams (run e es init_state)))
   \<and> trace (startRecognition (run e es init_state)) =
         trace (run e es init_state)
         @ (case speechRecognitionRef (run e es init_state) of
              None \<Rightarrow> [] | Some h \<Rightarrow> [StreamStop h])
         @ [StreamNew (length (streams (run e es init_state))),
            StreamStart (length (streams (run e es init_state)))]"
proof -
  let ?s = "run e es init_state"
  have i: "session_inv ?s" by (rule inv_run [OF inv_init])
  have own: "\<forall>h\<in>set (live_handles ?s). speechRecognitionRef ?s = Some h"
    using i by (simp add: live_handles_set session_inv_def)
  have one: "length (live_handles ?s) \<le> 1"
  proof (cases "speechRecognitionRef ?s")
    case None
    with own have "live_handles ?s = []" by (cases "live_handles ?s") auto
    then show ?thesis by simp
  next
    case (Some a)
    with own have "\<forall>h\<in>set (live_handles ?s). h = a" by simp
    then show ?thesis by (rule distinct_all_same [OF live_handles_distinct])
  qed
  have flags: "speechRecognitionRef ?s \<noteq> None \<longrightarrow> isRecordingRef ?s \<and> isRecording ?s"
    using i by (simp add: session_inv_def)
  show ?thesis
    using one own flags live_handles_after_start [OF i]
    by (simp add: startRecognition_fields startRecognition_trace)
qed

theorem single_live_stream_witness:
  "live_handles (run chrome_env [StartRecording] init_state) = [0]
   \<and> speechRecognitionRef (run chrome_env [StartRecording] init_state) = Some 0
   \<and> isRecordingRef (run chrome_env [StartRecording] init_state)
   \<and> isRecording (run chrome_env [StartRecording] init_state)
   \<and> live_handles (startRecognition (run chrome_env [StartRecording] init_state)) = [1]"
  using single_live_stream [of chrome_env "[StartRecording]"]
  by (simp add: run_def chrome_env_def init_state_def handleStartRecording_def
        speech_available_def probe_brave_def write_flag_def emit_def Let_def
        startRecognition_def stop_and_clear_def platform_new_def platform_start_def
        platform_stop_def configure_def status_at_def set_status_def live_handles_def)

text \<open>
  C4. A save with non-empty content calls \<open>onNoteCreated\<close> exactly once, with the
  content and the selected folder (followed by the success toast), and leaves the draft
  reset: empty content, no folder, onboarding shown.
\<close>

theorem save_nonempty_creates_once:
  assumes "content s \<noteq> ''''"
  shows "trace (handleSaveNote s) =
           trace s @ [NoteCreated (content s) (selectedFolderId s),
                      Toast ToastSuccess ''Nota criada com sucesso!'']
         \<and> content (handleSaveNote s) = ''''
         \<and> selectedFolderId (handleSaveNote s) = None
         \<and> shouldShowOnboarding (handleSaveNote s) = True"
  using assms by (simp add: handleSaveNote_def emit_def Let_def)

theorem save_nonempty_creates_once_witness:
  "content (init_state\<lparr>content := ''hello world'', selectedFolderId := Some ''f1'',
       shouldShowOnboarding := False\<rparr>) \<noteq> ''''
   \<and> trace (handleSaveNote (init_state\<lparr>content := ''hello world'',
         selectedFolderId := Some ''f1'', shouldShowOnboarding := False\<rparr>)) =
       [NoteCreated ''hello world'' (Some ''f1''), Toast ToastSuccess ''Nota criada com sucesso!'']
   \<and> content (handleSaveNote (init_state\<lparr>content := ''hello world'',
         selectedFolderId := Some ''f1'', shouldShowOnboarding := False\<rparr>)) = ''''"
  using save_nonempty_creates_once [of "init_state\<lparr>content := ''hello world'',
         selectedFolderId := Some ''f1'', shouldShowOnboarding := False\<rparr>"]
  by (simp add: init_state_def)

text \<open>
  C5. A save with empty content changes nothing at all: no callback, no toast, the same
  draft.
\<close>

theorem save_empty_noop:
  assumes "content s = ''''"
  shows "handleSaveNote s = s"
  using assms by (simp add: handleSaveNote_def)

theorem save_empty_noop_witness:
  "content (init_state\<lparr>selectedFolderId := Some ''f1''\<rparr>) = ''''
   \<and> handleSaveNote (init_state\<lparr>selectedFolderId := Some ''f1''\<rparr>)
       = init_state\<lparr>selectedFolderId := Some ''f1''\<rparr>"
  using save_empty_noop [of "init_state\<lparr>selectedFolderId := Some ''f1''\<rparr>"]
  by (simp add: init_state_def)

text \<open>
  C6. When the window has neither \<open>SpeechRecognition\<close> nor
  \<open>webkitSpeechRecognition\<close>, starting a recording shows the error toast and changes
  nothing else: flags, ref, recognizers, timers, draft and onboarding are as before.
\<close>

theorem start_unsupported_no_mutation:
  assumes "\<not> speech_available e"
  shows "handleStartRecording e s =
           s\<lparr>trace := trace s @ [Toast ToastError
               ''Seu navegador nao suporta a API de gravacao. Use Chrome ou Edge.'']\<rparr>"
  using assms by (simp add: handleStartRecording_def emit_def)

theorem start_unsupported_no_mutation_witness:
  "\<not> speech_available no_speech_env
   \<and> handleStartRecording no_speech_env init_state =
       init_state\<lparr>trace := [Toast ToastError
               ''Seu navegador nao suporta a API de gravacao. Use Chrome ou Edge.'']\<rparr>"
  using start_unsupported_no_mutation [of no_speech_env init_state]
  by (simp add: no_speech_env_def speech_available_def init_state_def)

text \<open>
  C7. A result event sets the content to the concatenation, in order, of the first
  alternative's transcript of every entry of \<open>event.results\<close>. The content before the
  event plays no part, so when a later event carries a new result at position \<open>i\<close>, or a
  new last entry, the new text stands in the place of the old one.
\<close>

theorem result_rebuilds_transcript:
  "content (onresult rs s) = concat (map (\<lambda>r. transcript (item0 r)) rs)
   \<and> content (onresult (rs[i := r']) (onresult rs s))
       = concat (map (\<lambda>r. transcript (item0 r)) (rs[i := r']))
   \<and> content (onresult (xs @ [r2]) (onresult (xs @ [r1]) s))
       = concat (map (\<lambda>r. transcript (item0 r)) xs) @ transcript (item0 r2)"
  by (simp add: onresult_def transcription_concat)

text \<open>
  C8. In every reachable state the error handler only logs to the console: flags, ref,
  recognizers, timers and draft are unchanged, so no restart is scheduled or made. (The
  handler's \<open>setIsRecording(false)\<close> runs only when \<open>isRecordingRef\<close> is false, where
  \<open>isRecording\<close> is false already.)
\<close>

theorem error_event_changes_nothing:
  "onerror (run e es init_state) =
     (run e es init_state)\<lparr>trace := trace (run e es init_state) @ [ConsoleError]\<rparr>
   \<and> step e (ErrorEvent h) (run e es init_state) =
     (if delivering h (run e es init_state)
      then (run e es init_state)\<lparr>trace := trace (run e es init_state) @ [ConsoleError]\<rparr>
      else run e es init_state)"
proof -
  let ?s = "run e es init_state"
  have i: "session_inv ?s" by (rule inv_run [OF inv_init])
  have "onerror ?s = ?s\<lparr>trace := trace ?s @ [ConsoleError]\<rparr>"
  proof (cases "isRecordingRef ?s")
    case True
    then show ?thesis by (simp add: onerror_def Let_def emit_def)
  next
    case False
    with i have "\<not> isRecording (?s\<lparr>trace := trace ?s @ [ConsoleError]\<rparr>)"
      by (simp add: session_inv_def)
    from update_isRecording_same [OF this] False show ?thesis
      by (simp add: onerror_def Let_def emit_def)
  qed
  then show ?thesis by simp
qed

text \<open>
  C9. The cleanup that runs on unmount stops the recognizer held by the ref and empties
  the ref, but does not write \<open>isRecordingRef.current = false\<close> as
  \<open>handleStopRecording\<close> does. Evaluated while dictating: after the unmount the flag is
  still true, so the end event of the stopped recognizer schedules the restart timer, and
  when it comes due a second recognizer is constructed, started and held by the ref.
  The same events after \<open>handleStopRecording\<close>, or after closing through
  \<open>handleDialogOpenChange(false)\<close>, schedule no timer and leave no recognizer running.
\<close>

theorem unmount_leaves_flag_and_restarts:
  "isRecordingRef dictating_abc
   \<and> live_handles dictating_abc = [0]
   \<and> speechRecognitionRef (step chrome_env Unmount dictating_abc) = None
   \<and> live_handles (step chrome_env Unmount dictating_abc) = []
   \<and> isRecordingRef (step chrome_env Unmount dictating_abc)
   \<and> timers (run chrome_env [Unmount, EndEvent 0] dictating_abc) = [200]
   \<and> speechRecognitionRef (run chrome_env [Unmount, EndEvent 0, TimerFire] dictating_abc)
        = Some 1
   \<and> live_handles (run chrome_env [Unmount, EndEvent 0, TimerFire] dictating_abc) = [1]
   \<and> \<not> isRecordingRef (step chrome_env StopRecording dictating_abc)
   \<and> timers (run chrome_env [StopRecording, EndEvent 0] dictating_abc) = []
   \<and> live_handles (run chrome_env [StopRecording, EndEvent 0, TimerFire] dictating_abc) = []
   \<and> live_handles
        (run chrome_env [DialogOpenChange False, EndEvent 0, TimerFire] dictating_abc) = []"
  by (simp add: dictating_abc_eval model_defs)


end
